theory Spec2Isabelle
  imports Main
begin

section \<open>JavaScript string primitives used by webpage.ts\<close>

text \<open>
  Strings are lists of characters. \<open>undefined\<close> and \<open>null\<close> are \<open>None\<close> of an
  option type; a value is falsy when it is \<open>undefined\<close>, \<open>null\<close> or the empty string.
\<close>

definition truthy :: "string option \<Rightarrow> bool" where
  "truthy v = (case v of None \<Rightarrow> False | Some s \<Rightarrow> s \<noteq> [])"

text \<open>String concatenation with a value that may be \<open>undefined\<close>: \<open>"#" + undefined\<close>
  is \<open>"#undefined"\<close>.\<close>

definition js_string :: "string option \<Rightarrow> string" where
  "js_string v = (case v of None \<Rightarrow> ''undefined'' | Some s \<Rightarrow> s)"

definition startsWith :: "string \<Rightarrow> string \<Rightarrow> bool" where
  "startsWith s p = (take (length p) s = p)"

text \<open>\<open>s.replaceAll(pat, rep)\<close> for a non-empty string pattern: the occurrences are
  found from left to right and do not overlap. The source only calls it with the
  patterns \<open>" "\<close>, \<open>":"\<close>, \<open>"__"\<close> and a backslash.\<close>

function replaceAll :: "string \<Rightarrow> string \<Rightarrow> string \<Rightarrow> string" where
  "replaceAll pat rep [] = []"
| "replaceAll pat rep (c # cs) =
     (if pat \<noteq> [] \<and> startsWith (c # cs) pat
      then rep @ replaceAll pat rep (drop (length pat) (c # cs))
      else c # replaceAll pat rep cs)"
  by pat_completeness auto
termination
  by (relation "measure (\<lambda>(pat, rep, s). length s)") (auto simp: neq_Nil_conv)

text \<open>\<open>s.substring(1)\<close>.\<close>

definition substring1 :: "string \<Rightarrow> string" where
  "substring1 s = drop 1 s"

text \<open>\<open>s.split(sep)\<close> for a one-character separator: \<open>n\<close> occurrences give \<open>n + 1\<close>
  pieces, the empty string gives one empty piece.\<close>

fun split :: "char \<Rightarrow> string \<Rightarrow> string list" where
  "split sep [] = [[]]"
| "split sep (c # cs) =
     (if c = sep then [] # split sep cs
      else (case split sep cs of [] \<Rightarrow> [[c]] | p # ps \<Rightarrow> (c # p) # ps))"

text \<open>\<open>xs[i]\<close> on an array: \<open>undefined\<close> out of range.\<close>

definition js_index :: "'a list \<Rightarrow> nat \<Rightarrow> 'a option" where
  "js_index xs i = (if i < length xs then Some (xs ! i) else None)"

text \<open>\<open>s.trim()\<close>: the white space of JavaScript among the characters below 256.\<close>

definition is_space :: "char \<Rightarrow> bool" where
  "is_space c = (of_char c \<in> {9, 10, 11, 12, 13, 32, 160 :: nat})"

definition trim :: "string \<Rightarrow> string" where
  "trim s = rev (dropWhile is_space (rev (dropWhile is_space s)))"

text \<open>The class \<open>\w\<close> of a regular expression.\<close>

definition is_word_char :: "char \<Rightarrow> bool" where
  "is_word_char c =
     (c \<in> set ''abcdefghijklmnopqrstuvwxyzABCDEFGHIJKLMNOPQRSTUVWXYZ0123456789_'')"

text \<open>The regular expression \<open>/\w+:(\/\/|\\\\)/\<close>: one or more word characters, a colon,
  then two slashes or two backslashes. \<open>url_regex_at\<close> matches at the start of the
  string (the greedy \<open>\w+\<close> cannot give characters back, a colon is no word character);
  \<open>url_regex_exec\<close> is \<open>exec\<close>, which tries every start position, read as a truth value.\<close>

definition url_regex_at :: "string \<Rightarrow> bool" where
  "url_regex_at s =
     (takeWhile is_word_char s \<noteq> [] \<and>
      (startsWith (dropWhile is_word_char s) ''://'' \<or>
       startsWith (dropWhile is_word_char s) [CHR '':'', CHR 0x5C, CHR 0x5C]))"

fun url_regex_exec :: "string \<Rightarrow> bool" where
  "url_regex_exec [] = False"
| "url_regex_exec (c # cs) = (url_regex_at (c # cs) \<or> url_regex_exec cs)"

subsection \<open>Numbers as decimal strings\<close>

definition digit_char :: "nat \<Rightarrow> char" where
  "digit_char d = ''0123456789'' ! d"

fun dec :: "nat \<Rightarrow> string" where
  "dec n = (if n < 10 then [digit_char n] else dec (n div 10) @ [digit_char (n mod 10)])"

declare dec.simps [simp del]

definition is_digit :: "char \<Rightarrow> bool" where
  "is_digit c = (c \<in> set ''0123456789'')"

definition digit_val :: "char \<Rightarrow> nat" where
  "digit_val c = of_char c - 48"

text \<open>Unary plus on a string, \<open>+s\<close>: the number a string of decimal digits denotes;
  \<open>None\<close> is \<open>NaN\<close>. The strings the header map holds are written by the allocator
  below, all of them strings of decimal digits; the rest of JavaScript's number syntax
  (signs, fractions, exponents, blanks) and the rounding of numbers beyond \<open>2^53\<close> are not
  modelled.\<close>

definition to_number :: "string \<Rightarrow> nat option" where
  "to_number s =
     (if s \<noteq> [] \<and> list_all is_digit s
      then Some (foldl (\<lambda>a c. 10 * a + digit_val c) 0 s) else None)"

section \<open>Heading-anchor allocation (remapLinks, first loop)\<close>

text \<open>The text of a heading or a fragment with the characters unsafe in a fragment
  taken out: \<open>.replaceAll(" ", "_").replaceAll(":", "").replaceAll("__", "_")\<close>.\<close>

definition normalize_text :: "string \<Rightarrow> string" where
  "normalize_text s = replaceAll ''__'' ''_'' (replaceAll '':'' '''' (replaceAll '' '' ''_'' s))"

text \<open>An element of the page document, as far as the remap passes read and write it:
  its tag, its attributes, its class list, its text content, and whether it matches
  \<open>.obsidian-document X:not(head *)\<close> (a descendant of the document container, outside
  the head). The page is the list of its elements in document order.\<close>

record element =
  tagName :: string
  attrs :: "string \<rightharpoonup> string"
  classList :: "string list"
  textContent :: string
  in_obsidian_document :: bool

definition getAttribute :: "element \<Rightarrow> string \<Rightarrow> string option" where
  "getAttribute e k = attrs e k"

definition setAttribute :: "element \<Rightarrow> string \<Rightarrow> string \<Rightarrow> element" where
  "setAttribute e k v = e\<lparr>attrs := (attrs e)(k \<mapsto> v)\<rparr>"

text \<open>\<open>el.classList.toggle(c, force)\<close>: adds the class when \<open>force\<close> is true, removes it
  otherwise.\<close>

definition toggle :: "element \<Rightarrow> string \<Rightarrow> bool \<Rightarrow> element" where
  "toggle e c force =
     e\<lparr>classList := (if force then (if c \<in> set (classList e) then classList e
                                       else classList e @ [c])
                       else filter (\<lambda>x. x \<noteq> c) (classList e))\<rparr>"

definition is_heading :: "element \<Rightarrow> bool" where
  "is_heading e = (tagName e \<in> {''h1'', ''h2'', ''h3'', ''h4'', ''h5'', ''h6''})"

text \<open>The heading text: \<open>data-heading\<close> when the attribute is there, the text content
  otherwise, normalized.\<close>

definition heading_text :: "element \<Rightarrow> string" where
  "heading_text e =
     normalize_text (case getAttribute e ''data-heading'' of None \<Rightarrow> textContent e | Some h \<Rightarrow> h)"

text \<open>The suffix the next heading of a text gets, from what the header map holds for
  it: \<open>"0"\<close> when the map has no entry (or a falsy one), the entry plus one otherwise.
  The map holds strings, and the string \<open>"0"\<close> is truthy.\<close>

definition next_header_id :: "string option \<Rightarrow> string" where
  "next_header_id v =
     (if truthy v
      then (case to_number (js_string v) of None \<Rightarrow> ''NaN'' | Some n \<Rightarrow> dec (n + 1))
      else ''0'')"

text \<open>One step of the \<open>forEach\<close> over the headings: the header map is updated and the
  element's id is set to \<open>text_suffix\<close>.\<close>

definition allocate :: "(string \<rightharpoonup> string) \<Rightarrow> element \<Rightarrow> (string \<rightharpoonup> string) \<times> element" where
  "allocate hm e =
     (let headerText = heading_text e;
          headerId = next_header_id (hm headerText)
      in (hm(headerText \<mapsto> headerId),
          setAttribute e ''id'' (headerText @ ''_'' @ headerId)))"

fun allocate_all :: "(string \<rightharpoonup> string) \<Rightarrow> element list \<Rightarrow> (string \<rightharpoonup> string) \<times> element list" where
  "allocate_all hm [] = (hm, [])"
| "allocate_all hm (e # es) =
     (if is_heading e
      then (let (hm1, e1) = allocate hm e; (hm2, es2) = allocate_all hm1 es in (hm2, e1 # es2))
      else (let (hm2, es2) = allocate_all hm es in (hm2, e # es2)))"

section \<open>Link resolution (resolveLink)\<close>

text \<open>The two properties of an Attachment's target path that resolveLink reads.\<close>

record path_info =
  path :: string
  extensionName :: string

text \<open>An Attachment: \<open>ident\<close> stands for the identity of the object (\<open>new Attachment\<close>
  takes the next free number of the run), \<open>data\<close> is its content.\<close>

record attachment =
  ident :: nat
  data :: string
  targetPath :: path_info

text \<open>The collaborators of the page that are not part of webpage.ts, as parameters:
  the Website (\<open>getFilePathFromSrc\<close>, \<open>index.getFile\<close>) and the methods of the Path
  class that resolveLink calls on the resolved path (a value of type \<open>'p\<close>) and on the
  page's own target path (\<open>path_toString\<close>: what \<open>this.targetPath + s\<close> prepends).\<close>

record 'p website =
  getFilePathFromSrc :: "string \<Rightarrow> string \<Rightarrow> 'p"
  index_getFile :: "string \<Rightarrow> bool \<Rightarrow> attachment option"
  pathname :: "'p \<Rightarrow> string"
  slugify :: "'p \<Rightarrow> bool \<Rightarrow> 'p"
  setExtension :: "'p \<Rightarrow> string \<Rightarrow> 'p"
  path_string :: "'p \<Rightarrow> string"
  path_toString :: "path_info \<Rightarrow> string"

text \<open>The state of a Webpage that the remap passes and the embed resolver use: the header
  map, the path of the source file, the target path, two export options, the owned
  attachments and the elements of the page document.\<close>

record webpage =
  headerMap :: "string \<rightharpoonup> string"
  source_path :: string
  page_targetPath :: path_info
  relativeHeaderLinks :: bool
  slugifyPaths :: bool
  attachments :: "attachment list"
  pageDocument :: "element list"

text \<open>The link is \<open>None\<close> for \<open>null\<close>; the result is \<open>None\<close> for \<open>undefined\<close>.\<close>

definition resolveLink ::
  "'p website \<Rightarrow> webpage \<Rightarrow> string option \<Rightarrow> element \<Rightarrow> bool \<Rightarrow> string option" where
  "resolveLink w pg link0 linkEl preferAttachment =
     (if \<not> truthy link0 then Some ''''
      else let link = js_string link0 in
      if \<not> startsWith link ''app://'' \<and> url_regex_exec link then None
      else if startsWith link ''data:'' then None
      else if startsWith link ''?'' then None
      else if startsWith link ''mailto:'' then None
      else if startsWith link ''#'' then
        (let headerText =
               substring1 (normalize_text (case getAttribute linkEl ''data-href'' of
                                        None \<Rightarrow> link | Some d \<Rightarrow> d))
         in case headerMap pg headerText of
              Some headerId \<Rightarrow>
                (let hrefValue = ''#'' @ headerText @ ''_'' @ headerId
                 in Some (if \<not> relativeHeaderLinks pg
                          then path_toString w (page_targetPath pg) @ hrefValue
                          else hrefValue))
            | None \<Rightarrow> Some link)
      else
        (let querySplit = split CHR ''?'' link;
             hashSplit = split CHR ''#'' (hd querySplit);
             path0 = hd hashSplit;
             hash = map_option trim (js_index hashSplit 1);
             query = map_option trim (js_index querySplit 1);
             attachmentPath = getFilePathFromSrc w path0 (source_path pg)
         in case index_getFile w (pathname w attachmentPath) preferAttachment of
              None \<Rightarrow>
                (let resolved = setExtension w (slugify w attachmentPath (slugifyPaths pg)) ''html''
                 in Some (path_string w resolved
                          @ (if truthy query then ''?'' @ js_string query else '''')
                          @ (if truthy hash then ''#'' @ js_string hash else '''')))
            | Some att \<Rightarrow>
                (let finalHash1 = (if hash \<noteq> Some '''' then ''#'' @ js_string hash else '''');
                     headerText = substring1 (normalize_text finalHash1);
                     finalHash =
                       (if extensionName (targetPath att) = ''html''
                        then (case headerMap pg headerText of
                                Some headerId \<Rightarrow> ''#'' @ headerText @ ''_'' @ headerId
                              | None \<Rightarrow> finalHash1)
                        else finalHash1)
                 in Some (path (targetPath att)
                          @ (if truthy query then ''?'' @ js_string query else '''')
                          @ (if finalHash \<noteq> '''' then finalHash else '''')))))"

section \<open>The remap passes (remapLinks, remapEmbedLinks)\<close>

text \<open>\<open>a ?? b ?? ""\<close>.\<close>

definition nullish :: "string option \<Rightarrow> string option \<Rightarrow> string" where
  "nullish a b = (case a of Some x \<Rightarrow> x | None \<Rightarrow> (case b of Some y \<Rightarrow> y | None \<Rightarrow> ''''))"

text \<open>\<open>hrefLinkElements\<close>: \<open>.obsidian-document [href]:not(head *)\<close>.\<close>

definition is_hrefLinkElement :: "element \<Rightarrow> bool" where
  "is_hrefLinkElement e = (in_obsidian_document e \<and> getAttribute e ''href'' \<noteq> None)"

text \<open>\<open>srcLinkElements\<close>: \<open>.obsidian-document [src]:not(head *)\<close> without the iframes
  of slide embeds.\<close>

definition is_srcLinkElement :: "element \<Rightarrow> bool" where
  "is_srcLinkElement e =
     (in_obsidian_document e \<and> getAttribute e ''src'' \<noteq> None \<and>
      \<not> (tagName e = ''iframe'' \<and> getAttribute e ''data-advanced-slides-embed'' = Some ''true''))"

text \<open>The body of the loop of remapLinks over the href elements.\<close>

definition remap_href :: "'p website \<Rightarrow> webpage \<Rightarrow> element \<Rightarrow> element" where
  "remap_href w pg link =
     (let href = getAttribute link ''href'';
          newHref = resolveLink w pg href link False;
          e1 = setAttribute link ''href'' (nullish newHref href);
          e2 = setAttribute e1 ''target'' ''_self''
      in toggle e2 ''is-unresolved'' (\<not> truthy newHref))"

text \<open>remapLinks: the headings get their ids and fill the header map, then every href
  element is resolved against the filled map. (Its last loop only writes the \<open>onclick\<close>
  attribute of buttons and is left out: no other part of the model reads it.)\<close>

definition remapLinks :: "'p website \<Rightarrow> webpage \<Rightarrow> webpage" where
  "remapLinks w pg =
     (let (hm, els) = allocate_all (headerMap pg) (pageDocument pg);
          pg1 = pg\<lparr>headerMap := hm\<rparr>
      in pg1\<lparr>pageDocument := map (\<lambda>e. if is_hrefLinkElement e then remap_href w pg1 e else e) els\<rparr>)"

text \<open>The bodies of the three loops of remapEmbedLinks: over the src elements, over the
  iframes and over the model-viewer elements.\<close>

definition remap_src :: "'p website \<Rightarrow> webpage \<Rightarrow> element \<Rightarrow> element" where
  "remap_src w pg link =
     (let src = getAttribute link ''src'';
          newSrc = resolveLink w pg src link True;
          e1 = setAttribute link ''src'' (nullish newSrc src);
          e2 = setAttribute e1 ''target'' ''_self''
      in toggle e2 ''is-unresolved'' (\<not> truthy newSrc))"

definition remap_iframe :: "'p website \<Rightarrow> webpage \<Rightarrow> element \<Rightarrow> element" where
  "remap_iframe w pg iframe =
     (let src = getAttribute iframe ''src'';
          newSrc = resolveLink w pg src iframe True;
          e1 = setAttribute iframe ''src'' (nullish newSrc src);
          e2 = setAttribute e1 ''target'' ''_self''
      in toggle e2 ''is-unresolved'' (\<not> truthy newSrc))"

definition remap_modelViewer :: "'p website \<Rightarrow> webpage \<Rightarrow> element \<Rightarrow> element" where
  "remap_modelViewer w pg modelViewer =
     (let src = getAttribute modelViewer ''src'';
          newSrc = resolveLink w pg src modelViewer True;
          e1 = setAttribute modelViewer ''src'' (nullish newSrc src)
      in toggle e1 ''is-unresolved'' (\<not> truthy newSrc))"

definition remapEmbedLinks :: "'p website \<Rightarrow> webpage \<Rightarrow> webpage" where
  "remapEmbedLinks w pg =
     (let els1 = map (\<lambda>e. if is_srcLinkElement e then remap_src w pg e else e) (pageDocument pg);
          els2 = map (\<lambda>e. if tagName e = ''iframe'' then remap_iframe w pg e else e) els1;
          els3 = map (\<lambda>e. if tagName e = ''model-viewer'' then remap_modelViewer w pg e else e) els2
      in pg\<lparr>pageDocument := els3\<rparr>)"

text \<open>The step of build() taken when the option fixLinks is set.\<close>

definition fixLinks :: "'p website \<Rightarrow> webpage \<Rightarrow> webpage" where
  "fixLinks w pg = remapEmbedLinks w (remapLinks w pg)"

section \<open>Slide embeds (processEmbed in handleAdvancedSlidesEmbeds)\<close>

text \<open>\<open>`${page}`\<close> for an integral page number.\<close>

definition show_int :: "int \<Rightarrow> string" where
  "show_int n = (if n < 0 then ''-'' @ dec (nat (- n)) else dec (nat n))"

text \<open>What processEmbed calls outside of itself, as parameters. The external renderer may
  answer differently from one invocation to the next: \<open>renderFile k p\<close> is its answer to
  invocation number \<open>k\<close> of the run (counted from 0) on the absolute path \<open>p\<close>, \<open>None\<close>
  for \<open>undefined\<close>. \<open>rewriteAdvancedSlidesHtml\<close> takes and returns the page's attachment
  list, to which it may add.\<close>

record embed_env =
  renderFile :: "nat \<Rightarrow> string \<Rightarrow> string option"
  getFullPath :: "string \<Rightarrow> string"
  getAdvancedSlidesEmbedTargetPath :: "string \<Rightarrow> int \<Rightarrow> path_info"
  rewriteAdvancedSlidesHtml ::
    "attachment list \<Rightarrow> string \<Rightarrow> path_info \<Rightarrow> string \<Rightarrow> string \<times> attachment list"
  getRelativePath :: "path_info \<Rightarrow> path_info \<Rightarrow> string"

text \<open>The state shared by the pages of a run: the static embed cache, and two ghost
  fields, the invocations of renderFile so far (the slide path and page number each was
  made for, and whether HTML came back) and the next free object identity.\<close>

record run_state =
  advancedSlidesEmbedCache :: "string \<rightharpoonup> attachment"
  renderLog :: "((string \<times> int) \<times> bool) list"
  nextIdent :: nat

definition cacheKey :: "string \<Rightarrow> int \<Rightarrow> string" where
  "cacheKey slidePath page = slidePath @ ''#page='' @ show_int page"

text \<open>The end of processEmbed, after the attachment is there: the page owns it and the
  iframe points at it.\<close>

definition attachEmbed ::
  "embed_env \<Rightarrow> webpage \<Rightarrow> attachment \<Rightarrow> element \<Rightarrow> webpage \<times> element" where
  "attachEmbed env pg embedAttachment iframe =
     (let pg1 = (if embedAttachment \<in> set (attachments pg) then pg
                 else pg\<lparr>attachments := attachments pg @ [embedAttachment]\<rparr>);
          iframeSrc = replaceAll [CHR 0x5C] ''/''
                        (getRelativePath env (page_targetPath pg) (targetPath embedAttachment));
          i1 = setAttribute iframe ''src'' iframeSrc;
          i2 = setAttribute i1 ''loading'' ''lazy'';
          i3 = setAttribute i2 ''data-advanced-slides-embed'' ''true''
      in (pg1, i3))"

text \<open>processEmbed for the slide file at \<open>slidePath\<close> and a page number. The last
  component of the result is the attachment the iframe was pointed at, \<open>None\<close> when the
  function returned early.\<close>

definition processEmbed ::
  "embed_env \<Rightarrow> run_state \<Rightarrow> webpage \<Rightarrow> string \<Rightarrow> int \<Rightarrow> element
     \<Rightarrow> run_state \<times> webpage \<times> element \<times> attachment option" where
  "processEmbed env st pg slidePath page iframe =
     (case advancedSlidesEmbedCache st (cacheKey slidePath page) of
        Some embedAttachment \<Rightarrow>
          (let (pg1, iframe1) = attachEmbed env pg embedAttachment iframe
           in (st, pg1, iframe1, Some embedAttachment))
      | None \<Rightarrow>
          (let absPath = getFullPath env slidePath;
               html = renderFile env (length (renderLog st)) absPath;
               st1 = st\<lparr>renderLog := renderLog st @ [((slidePath, page), truthy html)]\<rparr>
           in if \<not> truthy html then (st1, pg, iframe, None)
              else
                (let tp = getAdvancedSlidesEmbedTargetPath env slidePath page;
                     (rewritten, atts) =
                        rewriteAdvancedSlidesHtml env (attachments pg) (js_string html) tp slidePath;
                     embedAttachment = \<lparr>ident = nextIdent st1, data = rewritten, targetPath = tp\<rparr>;
                     st2 = st1\<lparr>advancedSlidesEmbedCache :=
                                  (advancedSlidesEmbedCache st1)(cacheKey slidePath page \<mapsto> embedAttachment),
                                nextIdent := Suc (nextIdent st1)\<rparr>;
                     (pg1, iframe1) = attachEmbed env (pg\<lparr>attachments := atts\<rparr>) embedAttachment iframe
                 in (st2, pg1, iframe1, Some embedAttachment))))"

text \<open>A reference to a slide embed found on a page: the page (by its number in the run),
  the slide file, the page number and the iframe.\<close>

record embed_ref =
  ref_host :: nat
  ref_slidePath :: string
  ref_page :: int
  ref_iframe :: element



text \<open>The state at the start of the process: \<open>new Map()\<close>.\<close>

definition initial_run :: run_state where
  "initial_run = \<lparr>advancedSlidesEmbedCache = Map.empty, renderLog = [], nextIdent = 0\<rparr>"

section \<open>Closed forms of the allocation loop, used in the proofs\<close>

text \<open>What the header map holds once the headings with the normalized texts \<open>pre\<close> have
  been visited, and the ids that the following headings with the texts \<open>ts\<close> then get.\<close>

definition header_map_of :: "string list \<Rightarrow> (string \<rightharpoonup> string)" where
  "header_map_of pre t = (if count_list pre t = 0 then None else Some (dec (count_list pre t - 1)))"

fun expected_ids :: "string list \<Rightarrow> string list \<Rightarrow> string list" where
  "expected_ids pre [] = []"
| "expected_ids pre (t # ts) = (t @ ''_'' @ dec (count_list pre t)) # expected_ids (pre @ [t]) ts"



section \<open>Example inputs\<close>

text \<open>A website whose paths are plain strings taken relative to the vault root, with
  slugification switched off (the identity), and an index that knows one page,
  \<open>notes/page.md\<close>, exported to \<open>notes/page.html\<close>.\<close>

definition ex_setExtension :: "string \<Rightarrow> string \<Rightarrow> string" where
  "ex_setExtension p ext =
     (if CHR ''.'' \<in> set p
      then rev (dropWhile (\<lambda>c. c \<noteq> CHR ''.'') (rev p)) @ ext
      else p @ ''.'' @ ext)"

definition ex_page_attachment :: attachment where
  "ex_page_attachment =
     \<lparr>ident = 0, data = '''', targetPath = \<lparr>path = ''notes/page.html'', extensionName = ''html''\<rparr>\<rparr>"

definition ex_website :: "string website" where
  "ex_website =
     \<lparr>getFilePathFromSrc = (\<lambda>src base. src),
      index_getFile = (\<lambda>p preferAttachment. if p = ''notes/page.md'' then Some ex_page_attachment else None),
      pathname = (\<lambda>p. p),
      slugify = (\<lambda>p enabled. p),
      setExtension = ex_setExtension,
      path_string = (\<lambda>p. p),
      path_toString = path\<rparr>"

definition ex_element :: "string \<Rightarrow> (string \<rightharpoonup> string) \<Rightarrow> string \<Rightarrow> element" where
  "ex_element tag as txt =
     \<lparr>tagName = tag, attrs = as, classList = [], textContent = txt, in_obsidian_document = True\<rparr>"

definition ex_page :: "element list \<Rightarrow> webpage" where
  "ex_page els =
     \<lparr>headerMap = Map.empty, source_path = ''index.md'',
      page_targetPath = \<lparr>path = ''index.html'', extensionName = ''html''\<rparr>,
      relativeHeaderLinks = True, slugifyPaths = False, attachments = [], pageDocument = els\<rparr>"

text \<open>A renderer environment: \<open>ex_env answers\<close> answers invocation \<open>k\<close> with
  \<open>answers ! k\<close>, and with nothing beyond the end of the list.\<close>

definition ex_env :: "string option list \<Rightarrow> embed_env" where
  "ex_env answers =
     \<lparr>renderFile = (\<lambda>k p. if k < length answers then answers ! k else None),
      getFullPath = (\<lambda>p. ''/vault/'' @ p),
      getAdvancedSlidesEmbedTargetPath =
        (\<lambda>p n. \<lparr>path = ''lib/advanced-slides/embeds/'' @ p @ ''-page-'' @ show_int n @ ''.html'',
                 extensionName = ''html''\<rparr>),
      rewriteAdvancedSlidesHtml = (\<lambda>atts html tp slide. (''<!DOCTYPE html> '' @ html, atts)),
      getRelativePath = (\<lambda>a b. path b)\<rparr>"

definition ex_anchor :: "string \<Rightarrow> element" where
  "ex_anchor href = ex_element ''a'' [''href'' \<mapsto> href] ''link''"


text \<open>What the examples look at in an element after the passes.\<close>

definition link_view :: "element \<Rightarrow> string option \<times> string option \<times> string option \<times> string list" where
  "link_view e = (getAttribute e ''href'', getAttribute e ''src'', getAttribute e ''target'', classList e)"

text \<open>Page \<open>i\<close> of the example run embeds page 0 of the slide file \<open>deck.md\<close>.\<close>

definition ex_pages :: "nat \<Rightarrow> webpage" where
  "ex_pages i = ex_page []"

definition ex_ref :: "nat \<Rightarrow> embed_ref" where
  "ex_ref i = \<lparr>ref_host = i, ref_slidePath = ''deck.md'', ref_page = 0,
              ref_iframe = ex_element ''iframe'' Map.empty ''''\<rparr>"


definition ex_headings :: "element list" where
  "ex_headings = [ex_element ''h1'' Map.empty ''Intro'', ex_element ''h2'' Map.empty ''Setup'',
                  ex_element ''h2'' Map.empty ''Intro'']"

section \<open>Decimal strings and anchor ids\<close>

lemma lt10_cases: "d < (10::nat) \<Longrightarrow> d \<in> {0, 1, 2, 3, 4, 5, 6, 7, 8, 9}"
  by auto

lemma digit_char_is_digit: "d < 10 \<Longrightarrow> is_digit (digit_char d)"
  by (drule lt10_cases) (auto simp: digit_char_def is_digit_def)

lemma digit_val_digit_char: "d < 10 \<Longrightarrow> digit_val (digit_char d) = d"
  by (drule lt10_cases) (auto simp: digit_char_def digit_val_def)

lemma dec_not_Nil: "dec n \<noteq> []"
  by (subst dec.simps) simp

lemma dec_all_digits: "list_all is_digit (dec n)"
proof (induction n rule: dec.induct)
  case (1 n)
  show ?case
  proof (cases "n < 10")
    case True
    then show ?thesis by (subst dec.simps) (simp add: digit_char_is_digit)
  next
    case False
    then have "list_all is_digit (dec (n div 10))" using 1 by simp
    moreover have "is_digit (digit_char (n mod 10))" by (simp add: digit_char_is_digit)
    ultimately show ?thesis using False by (subst dec.simps) simp
  qed
qed

lemma dec_value: "foldl (\<lambda>a c. 10 * a + digit_val c) 0 (dec n) = n"
proof (induction n rule: dec.induct)
  case (1 n)
  show ?case
  proof (cases "n < 10")
    case True
    then show ?thesis by (subst dec.simps) (simp add: digit_val_digit_char)
  next
    case False
    then have "foldl (\<lambda>a c. 10 * a + digit_val c) 0 (dec (n div 10)) = n div 10"
      using 1 by simp
    then show ?thesis using False
      by (subst dec.simps) (simp add: digit_val_digit_char)
  qed
qed

lemma to_number_dec: "to_number (dec n) = Some n"
proof -
  have "to_number (dec n) = Some (foldl (\<lambda>a c. 10 * a + digit_val c) 0 (dec n))"
    by (simp add: to_number_def dec_not_Nil dec_all_digits)
  then show ?thesis by (simp only: dec_value)
qed

lemma dec_inj: "dec m = dec n \<Longrightarrow> m = n"
  by (metis to_number_dec option.inject)

lemma dec_no_underscore: "CHR ''_'' \<notin> set (dec n)"
proof
  assume "CHR ''_'' \<in> set (dec n)"
  then have "is_digit CHR ''_''" using dec_all_digits [of n] by (simp add: list_all_iff)
  then show False by (simp add: is_digit_def)
qed

lemma suffix_split_unique:
  assumes "c \<notin> set d1" "c \<notin> set d2" "a @ c # d1 = b @ c # d2"
  shows "a = b \<and> d1 = d2"
  using assms
  by (auto simp: append_eq_append_conv2 append_eq_Cons_conv Cons_eq_append_conv)

lemma anchor_id_inj:
  "s @ ''_'' @ dec m = t @ ''_'' @ dec n \<Longrightarrow> s = t \<and> m = n"
  using suffix_split_unique [of "CHR ''_''" "dec m" "dec n" s t] dec_no_underscore dec_inj
  by auto

lemma dec_0: "dec 0 = ''0''"
  by (subst dec.simps) (simp add: digit_char_def)

lemma next_header_id_None: "next_header_id None = ''0''"
  by (simp add: next_header_id_def truthy_def)

lemma next_header_id_dec: "next_header_id (Some (dec n)) = dec (Suc n)"
  by (simp only: next_header_id_def truthy_def js_string_def option.case to_number_dec dec_not_Nil)
     simp

lemma next_header_id_map_of: "next_header_id (header_map_of pre t) = dec (count_list pre t)"
proof (cases "count_list pre t")
  case 0
  then show ?thesis by (simp add: header_map_of_def next_header_id_None dec_0)
next
  case (Suc k)
  then show ?thesis by (simp add: header_map_of_def next_header_id_dec)
qed

lemma header_map_of_step:
  "(header_map_of pre)(t \<mapsto> dec (count_list pre t)) = header_map_of (pre @ [t])"
  by (rule ext) (simp add: header_map_of_def)

lemma allocate_header_map_of:
  "allocate (header_map_of pre) e =
     (header_map_of (pre @ [heading_text e]),
      setAttribute e ''id'' (heading_text e @ ''_'' @ dec (count_list pre (heading_text e))))"
  by (simp add: allocate_def Let_def next_header_id_map_of header_map_of_step)

lemma is_heading_setAttribute: "is_heading (setAttribute e k v) = is_heading e"
  by (simp add: is_heading_def setAttribute_def)

lemma getAttribute_setAttribute: "getAttribute (setAttribute e k v) k = Some v"
  by (simp add: getAttribute_def setAttribute_def)

lemma allocate_all_general:
  "fst (allocate_all (header_map_of pre) els) =
     header_map_of (pre @ map heading_text (filter is_heading els)) \<and>
   map (\<lambda>e. getAttribute e ''id'') (filter is_heading (snd (allocate_all (header_map_of pre) els))) =
     map Some (expected_ids pre (map heading_text (filter is_heading els)))"
proof (induction els arbitrary: pre)
  case Nil
  then show ?case by simp
next
  case (Cons e es)
  show ?case
  proof (cases "is_heading e")
    case True
    then show ?thesis
      using Cons [of "pre @ [heading_text e]"]
      by (simp add: allocate_header_map_of split_beta is_heading_setAttribute
          getAttribute_setAttribute)
  next
    case False
    then show ?thesis using Cons [of pre] by (simp add: split_beta)
  qed
qed

lemma expected_ids_length: "length (expected_ids pre ts) = length ts"
  by (induction ts arbitrary: pre) auto

lemma expected_ids_nth:
  "i < length ts \<Longrightarrow>
   expected_ids pre ts ! i = ts ! i @ ''_'' @ dec (count_list (pre @ take i ts) (ts ! i))"
proof (induction ts arbitrary: pre i)
  case Nil
  then show ?case by simp
next
  case (Cons t ts)
  show ?case
  proof (cases i)
    case 0
    then show ?thesis by simp
  next
    case (Suc k)
    then show ?thesis using Cons.IH [of k "pre @ [t]"] Cons.prems by simp
  qed
qed

lemma count_list_take_mono:
  assumes "i < j" "j \<le> length ts"
  shows "count_list (take i ts) (ts ! i) < count_list (take j ts) (ts ! i)"
proof -
  have "take j ts = take (Suc i) ts @ take (j - Suc i) (drop (Suc i) ts)"
    using take_add [of "Suc i" "j - Suc i" ts] assms by simp
  moreover have "take (Suc i) ts = take i ts @ [ts ! i]"
    using assms by (simp add: take_Suc_conv_app_nth)
  ultimately show ?thesis by simp
qed

lemma header_map_of_Nil: "header_map_of [] = Map.empty"
  by (rule ext) (simp add: header_map_of_def)

lemma allocated_ids:
  "map (\<lambda>e. getAttribute e ''id'') (filter is_heading (snd (allocate_all Map.empty els))) =
     map Some (expected_ids [] (map heading_text (filter is_heading els)))"
  using allocate_all_general [of "[]" els] by (simp add: header_map_of_Nil)


lemma expected_ids_distinct: "distinct (expected_ids [] ts)"
proof -
  have "expected_ids [] ts ! i \<noteq> expected_ids [] ts ! j" if "i < j" "j < length ts" for i j
  proof
    assume eq: "expected_ids [] ts ! i = expected_ids [] ts ! j"
    have "ts ! i @ ''_'' @ dec (count_list (take i ts) (ts ! i)) =
          ts ! j @ ''_'' @ dec (count_list (take j ts) (ts ! j))"
      using eq that by (simp add: expected_ids_nth)
    then have "ts ! i = ts ! j" "count_list (take i ts) (ts ! i) = count_list (take j ts) (ts ! j)"
      using anchor_id_inj by blast+
    moreover have "count_list (take i ts) (ts ! i) < count_list (take j ts) (ts ! i)"
      using that by (intro count_list_take_mono) simp_all
    ultimately show False by simp
  qed
  then show ?thesis
    by (simp add: distinct_conv_nth expected_ids_length) (metis nat_neq_iff)
qed

section \<open>Heading anchors are numbered in document order and unique\<close>

text \<open>
  Claim C3. On a fresh page (empty header map), the allocation pass of remapLinks gives
  the heading number \<open>i\<close> (in document order) the id made of its normalized text, an
  underscore and the number of earlier headings with the same normalized text, written in
  decimal: \<open>N\<close> headings of one text get the suffixes \<open>0 .. N-1\<close> in document order. The
  ids of the headings of the page are pairwise different.
\<close>

theorem heading_suffixes_in_order_and_ids_unique:
  "length (filter is_heading (snd (allocate_all Map.empty els))) = length (filter is_heading els) \<and>
   (\<forall>i < length (filter is_heading els).
      getAttribute (filter is_heading (snd (allocate_all Map.empty els)) ! i) ''id'' =
        Some (heading_text (filter is_heading els ! i) @ ''_'' @
              dec (count_list (take i (map heading_text (filter is_heading els)))
                              (heading_text (filter is_heading els ! i))))) \<and>
   distinct (map (\<lambda>e. getAttribute e ''id'') (filter is_heading (snd (allocate_all Map.empty els))))"
proof -
  let ?hs = "filter is_heading els"
  let ?rs = "filter is_heading (snd (allocate_all Map.empty els))"
  let ?ts = "map heading_text ?hs"
  have ids: "map (\<lambda>e. getAttribute e ''id'') ?rs = map Some (expected_ids [] ?ts)"
    by (rule allocated_ids)
  have len: "length ?rs = length ?hs"
    using arg_cong [OF ids, of length] by (simp add: expected_ids_length)
  have nth: "getAttribute (?rs ! i) ''id'' =
               Some (heading_text (?hs ! i) @ ''_'' @ dec (count_list (take i ?ts) (heading_text (?hs ! i))))"
    if "i < length ?hs" for i
  proof -
    have "getAttribute (?rs ! i) ''id'' = map (\<lambda>e. getAttribute e ''id'') ?rs ! i"
      using that len by simp
    also have "\<dots> = Some (expected_ids [] ?ts ! i)"
      using that by (simp only: ids) (simp add: expected_ids_length)
    finally show ?thesis using that expected_ids_nth [of i ?ts "[]"] by simp
  qed
  have "distinct (map (\<lambda>e. getAttribute e ''id'') ?rs)"
    by (simp only: ids) (simp add: distinct_map expected_ids_distinct)
  with len nth show ?thesis by blast
qed

theorem heading_suffixes_in_order_and_ids_unique_witness:
  "map (\<lambda>e. getAttribute e ''id'') (filter is_heading (snd (allocate_all Map.empty ex_headings))) =
     [Some ''Intro_0'', Some ''Setup_0'', Some ''Intro_1''] \<and>
   distinct (map (\<lambda>e. getAttribute e ''id'') (filter is_heading (snd (allocate_all Map.empty ex_headings))))"
proof -
  have "map (\<lambda>e. getAttribute e ''id'') (filter is_heading (snd (allocate_all Map.empty ex_headings))) =
     [Some ''Intro_0'', Some ''Setup_0'', Some ''Intro_1'']"
    by code_simp
  then show ?thesis
    using heading_suffixes_in_order_and_ids_unique [of ex_headings] by blast
qed

section \<open>References that are left as they are\<close>

lemma url_regex_exec_append: "url_regex_exec ys \<Longrightarrow> url_regex_exec (xs @ ys)"
  by (induction xs) auto

lemma colon_not_word: "\<not> is_word_char CHR '':''"
  by (simp add: is_word_char_def)

lemma url_regex_at_scheme:
  assumes "is_word_char c"
  shows "url_regex_at (c # ''://'' @ rest)" "url_regex_at (c # [CHR '':'', CHR 0x5C, CHR 0x5C] @ rest)"
  using assms by (simp_all add: url_regex_at_def colon_not_word startsWith_def)

lemma url_regex_exec_scheme:
  assumes "scheme \<noteq> []" "is_word_char (last scheme)"
  shows "url_regex_exec (scheme @ ''://'' @ rest)"
    and "url_regex_exec (scheme @ [CHR '':'', CHR 0x5C, CHR 0x5C] @ rest)"
proof -
  have s: "scheme = butlast scheme @ [last scheme]" using assms(1) by simp
  have "url_regex_exec (butlast scheme @ (last scheme # ''://'' @ rest))"
    using url_regex_at_scheme(1) [OF assms(2), of rest] by (intro url_regex_exec_append) simp
  then show "url_regex_exec (scheme @ ''://'' @ rest)" by (subst s) simp
  have "url_regex_exec (butlast scheme @ (last scheme # [CHR '':'', CHR 0x5C, CHR 0x5C] @ rest))"
    using url_regex_at_scheme(2) [OF assms(2), of rest] by (intro url_regex_exec_append) simp
  then show "url_regex_exec (scheme @ [CHR '':'', CHR 0x5C, CHR 0x5C] @ rest)" by (subst s) simp
qed

lemma startsWith_nonempty: "startsWith s p \<Longrightarrow> p \<noteq> [] \<Longrightarrow> s \<noteq> []"
  by (auto simp: startsWith_def)

lemma resolveLink_leave_as_is:
  assumes "link \<noteq> []"
    and "(\<not> startsWith link ''app://'' \<and> url_regex_exec link) \<or> startsWith link ''data:'' \<or>
         startsWith link ''?'' \<or> startsWith link ''mailto:''"
  shows "resolveLink w pg (Some link) linkEl preferAttachment = None"
  using assms by (auto simp: resolveLink_def truthy_def js_string_def Let_def)

lemma remap_attribute_unchanged:
  assumes "resolveLink w pg (Some link) e False = None" "resolveLink w pg (Some link) e True = None"
  shows "getAttribute e ''href'' = Some link \<Longrightarrow> getAttribute (remap_href w pg e) ''href'' = Some link"
    and "getAttribute e ''src'' = Some link \<Longrightarrow> getAttribute (remap_src w pg e) ''src'' = Some link"
    and "getAttribute e ''src'' = Some link \<Longrightarrow> getAttribute (remap_iframe w pg e) ''src'' = Some link"
    and "getAttribute e ''src'' = Some link \<Longrightarrow> getAttribute (remap_modelViewer w pg e) ''src'' = Some link"
  using assms
  by (simp_all add: remap_href_def remap_src_def remap_iframe_def remap_modelViewer_def Let_def
      nullish_def getAttribute_def setAttribute_def toggle_def)

text \<open>
  Claim C6. A reference made of a scheme that ends in a word character, then \<open>://\<close> or a
  colon and two backslashes, then anything, and that does not start with \<open>app://\<close>, and
  likewise a reference that starts with \<open>data:\<close>, with \<open>?\<close> or with \<open>mailto:\<close>: resolveLink
  returns \<open>undefined\<close> for it, and the remap passes write the attribute back unchanged.
\<close>

theorem external_references_left_as_is:
  assumes "(scheme \<noteq> [] \<and> is_word_char (last scheme) \<and>
            (link = scheme @ ''://'' @ rest \<or> link = scheme @ [CHR '':'', CHR 0x5C, CHR 0x5C] @ rest) \<and>
            \<not> startsWith link ''app://'') \<or>
           startsWith link ''data:'' \<or> startsWith link ''?'' \<or> startsWith link ''mailto:''"
  shows "resolveLink w pg (Some link) linkEl preferAttachment = None \<and>
         (getAttribute e ''href'' = Some link \<longrightarrow>
            getAttribute (remap_href w pg e) ''href'' = Some link) \<and>
         (getAttribute e ''src'' = Some link \<longrightarrow>
            getAttribute (remap_src w pg e) ''src'' = Some link \<and>
            getAttribute (remap_iframe w pg e) ''src'' = Some link \<and>
            getAttribute (remap_modelViewer w pg e) ''src'' = Some link)"
proof -
  have ne: "link \<noteq> []"
    using assms by (auto dest: startsWith_nonempty)
  have cls: "(\<not> startsWith link ''app://'' \<and> url_regex_exec link) \<or> startsWith link ''data:'' \<or>
         startsWith link ''?'' \<or> startsWith link ''mailto:''"
    using assms url_regex_exec_scheme by blast
  have r: "resolveLink w pg (Some link) el pa = None" for el pa
    using ne cls by (rule resolveLink_leave_as_is)
  show ?thesis
    using r remap_attribute_unchanged [of w pg link e, OF r r] by blast
qed

theorem external_references_left_as_is_witness:
  "resolveLink ex_website (ex_page []) (Some ''https://example.com/x.png'')
     (ex_anchor ''https://example.com/x.png'') False = None \<and>
   getAttribute (remap_href ex_website (ex_page []) (ex_anchor ''https://example.com/x.png'')) ''href''
     = Some ''https://example.com/x.png'' \<and>
   resolveLink ex_website (ex_page []) (Some ''data:image/png;base64,AAA'')
     (ex_anchor ''data:image/png;base64,AAA'') True = None"
proof -
  have a: "resolveLink ex_website (ex_page []) (Some ''https://example.com/x.png'')
            (ex_anchor ''https://example.com/x.png'') False = None \<and>
           getAttribute (remap_href ex_website (ex_page []) (ex_anchor ''https://example.com/x.png'')) ''href''
             = Some ''https://example.com/x.png''"
    using external_references_left_as_is [of "''https''" "''https://example.com/x.png''"
        "''example.com/x.png''" ex_website "ex_page []" "ex_anchor ''https://example.com/x.png''"
        False "ex_anchor ''https://example.com/x.png''"]
    by (simp add: is_word_char_def startsWith_def ex_anchor_def ex_element_def getAttribute_def)
  have b: "resolveLink ex_website (ex_page []) (Some ''data:image/png;base64,AAA'')
            (ex_anchor ''data:image/png;base64,AAA'') True = None"
    using external_references_left_as_is [of "[]" "''data:image/png;base64,AAA''" "[]"
        ex_website "ex_page []" "ex_anchor ''data:image/png;base64,AAA''" True]
    by (simp add: startsWith_def)
  from a b show ?thesis by simp
qed

section \<open>Empty references\<close>

text \<open>
  An anchor with an empty href: after the pass the href is empty and the element carries
  the class \<open>is-unresolved\<close>; the class is not toggled off.
\<close>

theorem empty_reference_counterexample:
  "getAttribute (remap_href ex_website (ex_page []) (ex_anchor '''')) ''href'' = Some '''' \<and>
   classList (remap_href ex_website (ex_page []) (ex_anchor '''')) = [''is-unresolved'']"
  by code_simp

text \<open>
  Claim C10, as amended. For a \<open>null\<close> or empty reference resolveLink returns the empty
  string, and the remap passes write an empty attribute value and toggle the class
  \<open>is-unresolved\<close> on: the empty string is falsy, as \<open>undefined\<close> is.
\<close>

theorem empty_reference_marked_unresolved:
  assumes "link0 = None \<or> link0 = Some ''''"
  shows "resolveLink w pg link0 linkEl preferAttachment = Some '''' \<and>
         (getAttribute e ''href'' = link0 \<longrightarrow>
            getAttribute (remap_href w pg e) ''href'' = Some '''' \<and>
            ''is-unresolved'' \<in> set (classList (remap_href w pg e))) \<and>
         (getAttribute e ''src'' = link0 \<longrightarrow>
            getAttribute (remap_src w pg e) ''src'' = Some '''' \<and>
            ''is-unresolved'' \<in> set (classList (remap_src w pg e)) \<and>
            getAttribute (remap_iframe w pg e) ''src'' = Some '''' \<and>
            ''is-unresolved'' \<in> set (classList (remap_iframe w pg e)) \<and>
            getAttribute (remap_modelViewer w pg e) ''src'' = Some '''' \<and>
            ''is-unresolved'' \<in> set (classList (remap_modelViewer w pg e)))"
proof -
  have r: "resolveLink w pg link0 el pa = Some ''''" for el pa
    using assms by (auto simp: resolveLink_def truthy_def)
  show ?thesis
    by (simp add: r remap_href_def remap_src_def remap_iframe_def remap_modelViewer_def Let_def
        nullish_def getAttribute_def setAttribute_def toggle_def truthy_def)
qed

theorem empty_reference_marked_unresolved_witness:
  "resolveLink ex_website (ex_page []) (Some '''') (ex_anchor '''') False = Some '''' \<and>
   getAttribute (remap_href ex_website (ex_page []) (ex_anchor '''')) ''href'' = Some '''' \<and>
   ''is-unresolved'' \<in> set (classList (remap_href ex_website (ex_page []) (ex_anchor '''')))"
  using empty_reference_marked_unresolved [of "Some ''''" ex_website "ex_page []" "ex_anchor ''''"
      False "ex_anchor ''''"]
  by (simp add: ex_anchor_def ex_element_def getAttribute_def)

section \<open>Same-document fragment links\<close>






section \<open>Links to a known target: query and fragment\<close>

text \<open>A link with neither \<open>?\<close> nor \<open>#\<close> that the index knows: the hash is \<open>undefined\<close>
  and ends up in the result.\<close>

lemma split_no_separator: "sep \<notin> set s \<Longrightarrow> split sep s = [s]"
  by (induction s) auto

lemma bare_path_gets_undefined_fragment:
  assumes "link \<noteq> []" "CHR ''?'' \<notin> set link" "CHR ''#'' \<notin> set link"
    and "\<not> url_regex_exec link" "\<not> startsWith link ''data:''" "\<not> startsWith link ''mailto:''"
    and "index_getFile w (pathname w (getFilePathFromSrc w link (source_path pg))) preferAttachment = Some att"
  shows "resolveLink w pg (Some link) linkEl preferAttachment =
           Some (path (targetPath att) @
                 (if extensionName (targetPath att) = ''html''
                  then (case headerMap pg ''undefined'' of
                          None \<Rightarrow> ''#undefined'' | Some headerId \<Rightarrow> ''#undefined_'' @ headerId)
                  else ''#undefined''))"
proof -
  have q: "\<not> startsWith link ''?''" "\<not> startsWith link ''#''"
    using assms(1,2,3) by (cases link; auto simp: startsWith_def)+
  have n: "substring1 (normalize_text ''#undefined'') = ''undefined''"
    by code_simp
  show ?thesis
    using assms q
    by (simp add: resolveLink_def truthy_def js_string_def Let_def split_no_separator js_index_def n
        split: option.splits)
qed

text \<open>
  Claim C1, evaluated. The link \<open>notes/page.md?x=1#Section\<close> to a page of the index,
  with \<open>Section\<close> in the header map: the link is split at \<open>?\<close> first and the fragment is
  looked for before the \<open>?\<close> only, so the hash is \<open>undefined\<close>, the fragment stays in the
  query as it is, and \<open>#undefined\<close> is appended.
\<close>

theorem query_then_fragment_link_evaluated:
  "resolveLink ex_website ((ex_page [])\<lparr>headerMap := [''Section'' \<mapsto> ''0'']\<rparr>)
     (Some ''notes/page.md?x=1#Section'') (ex_anchor ''notes/page.md?x=1#Section'') False
   = Some ''notes/page.html?x=1#Section#undefined''"
  by code_simp

text \<open>
  Claim C5, evaluated. The bare path \<open>notes/page.md\<close> to a page of the index: the hash is
  \<open>undefined\<close>, which is not equal to the empty string, and \<open>#undefined\<close> is appended to the
  target path.
\<close>

theorem bare_path_link_evaluated:
  "resolveLink ex_website (ex_page []) (Some ''notes/page.md'') (ex_anchor ''notes/page.md'') False
   = Some ''notes/page.html#undefined''"
  by code_simp

section \<open>The class is-unresolved\<close>

text \<open>The class is on the element exactly when resolveLink returned a falsy value.\<close>

lemma unresolved_class_iff:
  "''is-unresolved'' \<in> set (classList (remap_href w pg e)) \<longleftrightarrow>
     \<not> truthy (resolveLink w pg (getAttribute e ''href'') e False)"
  by (simp add: remap_href_def Let_def toggle_def setAttribute_def)

text \<open>
  Claim C2, evaluated. An anchor to \<open>missing.md\<close>, which the index does not know, and an
  anchor to an external URL: the first gets the synthesized path \<open>missing.html\<close> and no
  class, the second keeps its href and gets the class \<open>is-unresolved\<close>.
\<close>

theorem unresolved_marker_evaluated:
  "map link_view
     (pageDocument (remapLinks ex_website
        (ex_page [ex_anchor ''missing.md'', ex_anchor ''https://example.com/x.png''])))
   = [(Some ''missing.html'', None, Some ''_self'', []),
      (Some ''https://example.com/x.png'', None, Some ''_self'', [''is-unresolved''])]"
  by code_simp

section \<open>The attribute target\<close>

text \<open>
  Claim C9, evaluated. An iframe and a model-viewer element, both without a src
  attribute: after both passes the iframe has \<open>target=_self\<close>, the model-viewer element
  has no target attribute (its loop does not set one).
\<close>

theorem model_viewer_target_evaluated:
  "map link_view
     (pageDocument (fixLinks ex_website
        (ex_page [ex_element ''iframe'' Map.empty '''', ex_element ''model-viewer'' Map.empty ''''])))
   = [(None, Some '''', Some ''_self'', [''is-unresolved'']),
      (None, Some '''', None, [''is-unresolved''])]"
  by code_simp

section \<open>The embed cache\<close>


lemma processEmbed_failed:
  assumes "advancedSlidesEmbedCache st (cacheKey slidePath page) = None"
    and "\<not> truthy (renderFile env (length (renderLog st)) (getFullPath env slidePath))"
  shows "processEmbed env st pg slidePath page iframe =
           (st\<lparr>renderLog := renderLog st @ [((slidePath, page), False)]\<rparr>, pg, iframe, None)"
  using assms by (simp add: processEmbed_def Let_def)


lemma processEmbed_miss_log:
  assumes "advancedSlidesEmbedCache st (cacheKey slidePath page) = None"
  shows "renderLog (fst (processEmbed env st pg slidePath page iframe)) =
           renderLog st @ [((slidePath, page),
                            truthy (renderFile env (length (renderLog st)) (getFullPath env slidePath)))]"
  using assms by (simp add: processEmbed_def Let_def split_beta)

text \<open>
  Claim C8. When the cache has no entry for the slide and page and the renderer returns
  no HTML, processEmbed leaves the cache as it was and points the iframe at nothing; the
  next reference to the same slide and page invokes the renderer again.
\<close>

theorem failed_render_not_cached_and_retried:
  assumes "advancedSlidesEmbedCache st (cacheKey slidePath page) = None"
    and "\<not> truthy (renderFile env (length (renderLog st)) (getFullPath env slidePath))"
  shows "advancedSlidesEmbedCache (fst (processEmbed env st pg slidePath page iframe)) =
           advancedSlidesEmbedCache st \<and>
         snd (snd (snd (processEmbed env st pg slidePath page iframe))) = None \<and>
         renderLog (fst (processEmbed env (fst (processEmbed env st pg slidePath page iframe))
                           pg2 slidePath page iframe2)) =
           renderLog st @
             [((slidePath, page), False),
              ((slidePath, page),
               truthy (renderFile env (Suc (length (renderLog st))) (getFullPath env slidePath)))]"
proof -
  let ?st1 = "st\<lparr>renderLog := renderLog st @ [((slidePath, page), False)]\<rparr>"
  have 1: "processEmbed env st pg slidePath page iframe = (?st1, pg, iframe, None)"
    using assms by (rule processEmbed_failed)
  have "advancedSlidesEmbedCache ?st1 (cacheKey slidePath page) = None"
    using assms(1) by simp
  from processEmbed_miss_log [OF this, of env pg2 iframe2]
  show ?thesis by (simp add: 1)
qed

theorem failed_render_not_cached_and_retried_witness:
  "advancedSlidesEmbedCache (fst (processEmbed (ex_env [None, Some ''<p>'']) initial_run (ex_pages 0)
      ''deck.md'' 0 (ref_iframe (ex_ref 0)))) = advancedSlidesEmbedCache initial_run \<and>
   renderLog (fst (processEmbed (ex_env [None, Some ''<p>''])
      (fst (processEmbed (ex_env [None, Some ''<p>'']) initial_run (ex_pages 0)
             ''deck.md'' 0 (ref_iframe (ex_ref 0))))
      (ex_pages 1) ''deck.md'' 0 (ref_iframe (ex_ref 1)))) =
     [((''deck.md'', 0), False), ((''deck.md'', 0), True)]"
  using failed_render_not_cached_and_retried [of initial_run "''deck.md''" 0 "ex_env [None, Some ''<p>'']"
      "ex_pages 0" "ref_iframe (ex_ref 0)" "ex_pages 1" "ref_iframe (ex_ref 1)"]
  by (simp add: initial_run_def ex_env_def truthy_def)














end
